theory Spec2Isabelle
  imports Main "HOL-Library.Multiset"
begin

unbundle bit_operations_syntax

section \<open>The QR code reader of hermit (\<^verbatim>\<open>hermit/qrcode/reader.py\<close>)\<close>

text \<open>
  The reader assembles one payload (a PSBT or an account map) from the QR codes a camera
  shows it, one frame after the other. A payload cut into several codes carries a header
  \<^verbatim>\<open>pXofY\<close> in front of each piece. The embedding follows the source function by
  function: the two parsers, \<^verbatim>\<open>read_single_qr\<close>, and the loop of
  \<^verbatim>\<open>read_qr_code\<close>. The camera, the key presses and the barcode decoder are the
  environment: the model receives what they deliver, iteration by iteration, as a list.
\<close>

subsection \<open>Python values the code relies on\<close>

text \<open>The exceptions that the code raises itself or that its built-in operations raise.\<close>

datatype exn = ValueError | RuntimeError | IndexError | TypeError | KeyError

text \<open>
  \<^verbatim>\<open>s.split(" ")\<close>: cuts at every single space, so that \<open>n\<close> spaces give
  \<open>n + 1\<close> pieces, empty ones included; the empty string gives one empty piece.
\<close>

fun split_space :: "string \<Rightarrow> string list" where
  "split_space [] = [[]]"
| "split_space (c # cs) =
     (if c = CHR '' '' then [] # split_space cs
      else (case split_space cs of
              [] \<Rightarrow> [[c]]
            | w # ws \<Rightarrow> (c # w) # ws))"

text \<open>\<^verbatim>\<open>" ".join(parts)\<close>\<close>

fun join_space :: "string list \<Rightarrow> string" where
  "join_space [] = []"
| "join_space [w] = w"
| "join_space (w # ws) = w @ CHR '' '' # join_space ws"

text \<open>The character class \<^verbatim>\<open>[0-9]\<close> of a \<^verbatim>\<open>str\<close> pattern: the ten ASCII digits.\<close>

definition is_digit :: "char \<Rightarrow> bool" where
  "is_digit c = (c \<in> set ''0123456789'')"

text \<open>
  \<^verbatim>\<open>re.match("p([0-9]*)of([0-9]*)", s)\<close>: the pattern is anchored at the start of
  \<open>s\<close> only. Both groups are greedy; a digit is never the letter \<open>o\<close>, so the first
  group is the longest run of digits after the \<open>p\<close>, and nothing follows the second
  group in the pattern, so it is the longest run of digits after \<open>of\<close>. The result is
  the two groups, \<open>None\<close> when there is no match.
\<close>

definition xofy_match :: "string \<Rightarrow> (string \<times> string) option" where
  "xofy_match s =
     (case s of
        [] \<Rightarrow> None
      | c # r \<Rightarrow>
          if c \<noteq> CHR ''p'' then None
          else
            (case dropWhile is_digit r of
               c1 # c2 # r2 \<Rightarrow>
                 if c1 = CHR ''o'' \<and> c2 = CHR ''f''
                 then Some (takeWhile is_digit r, takeWhile is_digit r2)
                 else None
             | _ \<Rightarrow> None))"

text \<open>
  \<^verbatim>\<open>int(group)\<close> on a group of the pattern, which holds ASCII digits only: the decimal
  value. The empty group raises \<^verbatim>\<open>ValueError\<close>, and so does a group of more digits
  than the interpreter converts (\<^verbatim>\<open>sys.int_info.default_max_str_digits\<close>, 4300 digits,
  leading zeros counted).
\<close>

definition int_of_digits :: "string \<Rightarrow> int" where
  "int_of_digits ds = foldl (\<lambda>n c. 10 * n + (of_char c - 48)) 0 ds"

definition max_str_digits :: int where
  "max_str_digits = 4300"

definition py_int :: "string \<Rightarrow> exn + int" where
  "py_int ds =
     (if ds = [] \<or> max_str_digits < int (length ds) then Inl ValueError
      else Inr (int_of_digits ds))"

text \<open>
  \<^verbatim>\<open>xs[i]\<close> on a list of length \<open>n\<close>: the position read or written, counting from
  the end when \<open>i\<close> is negative; \<open>None\<close> stands for \<^verbatim>\<open>IndexError\<close>.
\<close>

definition py_index :: "nat \<Rightarrow> int \<Rightarrow> nat option" where
  "py_index n i =
     (if 0 \<le> i \<and> i < int n then Some (nat i)
      else if - int n \<le> i \<and> i < 0 then Some (nat (int n + i))
      else None)"

text \<open>
  \<^verbatim>\<open>"".join(qrs_array)\<close>: a \<^verbatim>\<open>None\<close> among the items raises
  \<^verbatim>\<open>TypeError\<close>.
\<close>

definition py_join :: "string option list \<Rightarrow> exn + string" where
  "py_join xs = (if None \<in> set xs then Inl TypeError else Inr (concat (map the xs)))"

subsection \<open>The dictionary of one scanned code\<close>

text \<open>
  The parsers return a dictionary with the keys \<^verbatim>\<open>x_int\<close>, \<^verbatim>\<open>y_int\<close> and
  \<^verbatim>\<open>payload\<close>, some of which may be absent; \<^verbatim>\<open>read_single_qr\<close> returns the
  empty dictionary for a frame without a code.
\<close>

record qr_dict =
  x_int :: "int option"
  y_int :: "int option"
  payload :: "string option"

definition empty_dict :: qr_dict where
  "empty_dict = \<lparr>x_int = None, y_int = None, payload = None\<rparr>"

subsection \<open>The parsers\<close>

definition parse_specter_desktop_psbt :: "string \<Rightarrow> exn + qr_dict" where
  "parse_specter_desktop_psbt qrcode_data =
     (let parts = split_space qrcode_data in
      if length parts = 1 then
        Inr \<lparr>x_int = Some 1, y_int = Some 1, payload = Some qrcode_data\<rparr>
      else if length parts = 2 then
        (case xofy_match (parts ! 0) of
           None \<Rightarrow> Inl ValueError
         | Some (g1, g2) \<Rightarrow>
             (case py_int g1 of
                Inl e \<Rightarrow> Inl e
              | Inr x \<Rightarrow>
                  (case py_int g2 of
                     Inl e \<Rightarrow> Inl e
                   | Inr y \<Rightarrow>
                       Inr \<lparr>x_int = Some x, y_int = Some y, payload = Some (parts ! 1)\<rparr>)))
      else Inl ValueError)"

text \<open>
  \<^verbatim>\<open>parse_wshsortedmulti\<close> belongs to the library \<^verbatim>\<open>buidl\<close>, not to this
  program: it is a parameter, which says for each string whether the call returns
  (\<open>None\<close>) or which exception it raises.
\<close>

type_synonym validator = "string \<Rightarrow> exn option"

definition parse_specter_desktop_accountmap :: "validator \<Rightarrow> string \<Rightarrow> exn + qr_dict" where
  "parse_specter_desktop_accountmap parse_wshsortedmulti qrcode_data =
     (let parts = split_space qrcode_data;
          xofy = parts ! 0
      in case xofy_match xofy of
           None \<Rightarrow>
             (case parse_wshsortedmulti qrcode_data of
                Some e \<Rightarrow> Inl e
              | None \<Rightarrow> Inr \<lparr>x_int = None, y_int = None, payload = Some qrcode_data\<rparr>)
         | Some (g1, g2) \<Rightarrow>
             (case py_int g1 of
                Inl e \<Rightarrow> Inl e
              | Inr x \<Rightarrow>
                  (case py_int g2 of
                     Inl e \<Rightarrow> Inl e
                   | Inr y \<Rightarrow>
                       Inr \<lparr>x_int = Some x, y_int = Some y,
                            payload = Some (join_space (drop 1 parts))\<rparr>)))"

text \<open>
  \<^verbatim>\<open>read_single_qr\<close>: \<open>barcodes\<close> is what the decoder found in the frame, each code
  as its text after \<^verbatim>\<open>.decode("utf-8").strip()\<close>. Only the first code is parsed.
\<close>

definition read_single_qr :: "validator \<Rightarrow> string \<Rightarrow> string list \<Rightarrow> exn + qr_dict" where
  "read_single_qr parse_wshsortedmulti qrtype barcodes =
     (if qrtype \<notin> set [''accountmap'', ''psbt''] then Inl RuntimeError
      else
        (case barcodes of
           [] \<Rightarrow> Inr empty_dict
         | qrcode_data # _ \<Rightarrow>
             if qrtype = ''psbt'' then parse_specter_desktop_psbt qrcode_data
             else parse_specter_desktop_accountmap parse_wshsortedmulti qrcode_data))"

subsection \<open>One scanned code enters the array\<close>

text \<open>
  The body of the loop of \<^verbatim>\<open>read_qr_code\<close> from the test of \<^verbatim>\<open>y_int\<close> to
  the test that ends the loop. It returns what it prints and how the loop goes on.
\<close>

datatype msg = Scanned nat nat | Adding_to_array | Already_scanned int

datatype control =
    Continue "string option list"
  | Break "string option list"
  | Return string
  | Raise exn

definition return_payload :: "qr_dict \<Rightarrow> control" where
  "return_payload d = (case payload d of None \<Rightarrow> Raise KeyError | Some p \<Rightarrow> Return p)"

definition end_of_body :: "string option list \<Rightarrow> control" where
  "end_of_body qrs_array = (if None \<notin> set qrs_array then Break qrs_array else Continue qrs_array)"

definition absorb :: "string option list \<Rightarrow> qr_dict \<Rightarrow> msg list \<times> control" where
  "absorb qrs_array d =
     (case y_int d of
        None \<Rightarrow> ([], return_payload d)
      | Some y \<Rightarrow>
          if y = 1 then ([], return_payload d)
          else
            (let qrs1 = (if qrs_array = [] then replicate (nat y) None else qrs_array);
                 num_scanned = length (filter (\<lambda>x. x \<noteq> None) qrs1);
                 m = Scanned num_scanned (length qrs1)
             in case x_int d of
                  None \<Rightarrow> ([m], Raise KeyError)
                | Some x \<Rightarrow>
                    (case py_index (length qrs1) (x - 1) of
                       None \<Rightarrow> ([m], Raise IndexError)
                     | Some i \<Rightarrow>
                         if qrs1 ! i = None then
                           (case payload d of
                              None \<Rightarrow> ([m, Adding_to_array], Raise KeyError)
                            | Some p \<Rightarrow>
                                ([m, Adding_to_array], end_of_body (qrs1[i := Some p])))
                         else ([m, Already_scanned x], end_of_body qrs1))))"

subsection \<open>The loop\<close>

text \<open>
  One turn of the loop receives the key that \<^verbatim>\<open>cv2.waitKey(1)\<close> reports (\<open>-1\<close>
  when none is pressed) and the codes decoded in the frame that \<^verbatim>\<open>camera.read()\<close>
  delivers. The loop has no bound of its own: it runs as long as the environment delivers
  turns, and \<open>None\<close> says that the turns given were used up before it ended.
\<close>

record iteration =
  wait_key :: int
  barcodes :: "string list"

fun read_qr_code_loop ::
  "validator \<Rightarrow> string \<Rightarrow> string option list \<Rightarrow> iteration list \<Rightarrow> control option" where
  "read_qr_code_loop v qrtype qrs_array [] = None"
| "read_qr_code_loop v qrtype qrs_array (it # its) =
     (if wait_key it AND 0xFF = 27 then Some (Break qrs_array)
      else
        (case read_single_qr v qrtype (barcodes it) of
           Inl e \<Rightarrow>
             if e = ValueError then read_qr_code_loop v qrtype qrs_array its
             else Some (Raise e)
         | Inr single_qr_dict \<Rightarrow>
             if single_qr_dict = empty_dict then read_qr_code_loop v qrtype qrs_array its
             else
               (case snd (absorb qrs_array single_qr_dict) of
                  Continue qrs' \<Rightarrow> read_qr_code_loop v qrtype qrs' its
                | c \<Rightarrow> Some c)))"

text \<open>
  What a call of \<^verbatim>\<open>read_qr_code\<close> leaves behind: the string returned or the
  exception raised, and how often the camera was opened (\<^verbatim>\<open>cv2.VideoCapture(0)\<close>)
  and released (\<^verbatim>\<open>camera.release()\<close>).
\<close>

record call_result =
  outcome :: "exn + string"
  camera_opened :: nat
  camera_released :: nat

definition read_qr_code :: "validator \<Rightarrow> string \<Rightarrow> iteration list \<Rightarrow> call_result option" where
  "read_qr_code v qrtype its =
     (if qrtype \<notin> set [''accountmap'', ''psbt''] then
        Some \<lparr>outcome = Inl RuntimeError, camera_opened = 0, camera_released = 0\<rparr>
      else
        (case read_qr_code_loop v qrtype [] its of
           None \<Rightarrow> None
         | Some (Continue qrs_array) \<Rightarrow> None
         | Some (Return p) \<Rightarrow>
             Some \<lparr>outcome = Inr p, camera_opened = 1, camera_released = 0\<rparr>
         | Some (Raise e) \<Rightarrow>
             Some \<lparr>outcome = Inl e, camera_opened = 1, camera_released = 0\<rparr>
         | Some (Break qrs_array) \<Rightarrow>
             Some \<lparr>outcome = py_join qrs_array, camera_opened = 1, camera_released = 1\<rparr>))"

text \<open>Turns for the examples: a frame showing one code and no key pressed; the escape key.\<close>

definition frame :: "string \<Rightarrow> iteration" where
  "frame qrcode_data = \<lparr>wait_key = - 1, barcodes = [qrcode_data]\<rparr>"

definition escape :: iteration where
  "escape = \<lparr>wait_key = 27, barcodes = []\<rparr>"

text \<open>Two validators for the examples: one returns for every string, one raises for every string.\<close>

definition accepting :: validator where
  "accepting s = None"

definition rejecting :: validator where
  "rejecting s = Some ValueError"

subsection \<open>The header grammar of the specification\<close>

text \<open>
  The specification describes the header of a multi-part code as \<^verbatim>\<open>p<digits>of<digits>\<close>,
  each group a decimal number of at least one digit. \<open>header_grammar\<close> says that a token
  is such a header and nothing more; \<open>header_prefix\<close> says that a token begins with one.
\<close>

definition header_grammar :: "string \<Rightarrow> bool" where
  "header_grammar tok =
     (\<exists>a b. a \<noteq> [] \<and> b \<noteq> [] \<and> list_all is_digit a \<and> list_all is_digit b \<and>
            tok = ''p'' @ a @ ''of'' @ b)"

definition header_prefix :: "string \<Rightarrow> bool" where
  "header_prefix tok =
     (\<exists>a b r. a \<noteq> [] \<and> b \<noteq> [] \<and> list_all is_digit a \<and> list_all is_digit b \<and>
              tok = ''p'' @ a @ ''of'' @ b @ r)"

section \<open>Properties\<close>

subsection \<open>Splitting and joining\<close>

lemma split_space_not_Nil: "split_space s \<noteq> []"
  by (induction s) (auto split: list.splits)

lemma split_space_no_space: "CHR '' '' \<notin> set s \<Longrightarrow> split_space s = [s]"
  by (induction s) auto

lemma split_space_at_space:
  "CHR '' '' \<notin> set a \<Longrightarrow> split_space (a @ CHR '' '' # r) = a # split_space r"
  by (induction a) auto

lemma length_split_space:
  "length (split_space s) = Suc (length (filter (\<lambda>c. c = CHR '' '') s))"
  by (induction s) (auto split: list.splits simp: split_space_not_Nil)

lemma join_space_Cons: "ws \<noteq> [] \<Longrightarrow> join_space (w # ws) = w @ CHR '' '' # join_space ws"
  by (cases ws) auto

text \<open>Joining the pieces with single spaces gives the string back, whatever its spaces.\<close>

lemma join_split_space: "join_space (split_space s) = s"
proof (induction s)
  case Nil
  then show ?case by simp
next
  case (Cons c cs)
  show ?case
  proof (cases "c = CHR '' ''")
    case True
    then show ?thesis using Cons split_space_not_Nil [of cs]
      by (simp add: join_space_Cons)
  next
    case False
    obtain w ws where ws: "split_space cs = w # ws"
      using split_space_not_Nil [of cs] by (cases "split_space cs") auto
    show ?thesis
    proof (cases ws)
      case Nil
      with ws Cons False show ?thesis by simp
    next
      case (Cons a list)
      with ws Cons.IH False show ?thesis by simp
    qed
  qed
qed

subsection \<open>The pattern and the grammar\<close>

lemma not_digit_o: "\<not> is_digit CHR ''o''"
  by (simp add: is_digit_def)

lemma not_digit_space: "\<not> is_digit CHR '' ''"
  by (simp add: is_digit_def)

lemma xofy_match_header:
  assumes "list_all is_digit a" and "list_all is_digit b"
  shows "xofy_match (''p'' @ a @ ''of'' @ b @ r) = Some (a, b @ takeWhile is_digit r)"
proof -
  have a: "\<And>x. x \<in> set a \<Longrightarrow> is_digit x" and b: "\<And>x. x \<in> set b \<Longrightarrow> is_digit x"
    using assms by (simp_all add: list_all_iff)
  have d: "dropWhile is_digit (a @ ''of'' @ b @ r) = ''of'' @ b @ r"
    using a by (simp add: dropWhile_append2 not_digit_o)
  have t: "takeWhile is_digit (a @ ''of'' @ b @ r) = a"
    using a by (simp add: takeWhile_append2 not_digit_o)
  have t2: "takeWhile is_digit (b @ r) = b @ takeWhile is_digit r"
    using b by (simp add: takeWhile_append2)
  show ?thesis
    using d t t2 by (simp add: xofy_match_def)
qed

lemma xofy_match_SomeD:
  assumes "xofy_match s = Some (a, b)"
  shows "list_all is_digit a \<and> list_all is_digit b \<and>
         (\<exists>r. s = ''p'' @ a @ ''of'' @ b @ r \<and> (r = [] \<or> \<not> is_digit (hd r)))"
proof -
  from assms obtain r where s: "s = CHR ''p'' # r"
    by (auto simp: xofy_match_def split: list.splits if_splits)
  from assms s obtain r2 where d: "dropWhile is_digit r = CHR ''o'' # CHR ''f'' # r2"
    and a: "a = takeWhile is_digit r" and b: "b = takeWhile is_digit r2"
    by (auto simp: xofy_match_def split: list.splits if_splits)
  have "r = takeWhile is_digit r @ dropWhile is_digit r" by simp
  then have r: "r = a @ ''of'' @ r2" using d a by simp
  have r2: "r2 = b @ dropWhile is_digit r2" using b by simp
  have da: "list_all is_digit a" using a by (auto simp: list_all_iff dest: set_takeWhileD)
  have db: "list_all is_digit b" using b by (auto simp: list_all_iff dest: set_takeWhileD)
  have tail: "dropWhile is_digit r2 = [] \<or> \<not> is_digit (hd (dropWhile is_digit r2))"
    using hd_dropWhile [of is_digit r2] by blast
  have "s = ''p'' @ a @ ''of'' @ b @ dropWhile is_digit r2"
    using s r r2 by simp
  with da db tail show ?thesis by blast
qed


text \<open>The source's pattern finds two non-empty groups exactly in the tokens that begin with a header.\<close>

lemma header_prefix_iff:
  "header_prefix tok \<longleftrightarrow> (\<exists>a b. xofy_match tok = Some (a, b) \<and> a \<noteq> [] \<and> b \<noteq> [])"
proof
  assume "header_prefix tok"
  then obtain a b r where ab: "a \<noteq> []" "b \<noteq> []" "list_all is_digit a" "list_all is_digit b"
    and tok: "tok = ''p'' @ a @ ''of'' @ b @ r"
    unfolding header_prefix_def by blast
  have "xofy_match tok = Some (a, b @ takeWhile is_digit r)"
    unfolding tok using ab(3,4) by (rule xofy_match_header)
  with ab show "\<exists>a b. xofy_match tok = Some (a, b) \<and> a \<noteq> [] \<and> b \<noteq> []" by simp
next
  assume "\<exists>a b. xofy_match tok = Some (a, b) \<and> a \<noteq> [] \<and> b \<noteq> []"
  then obtain a b where m: "xofy_match tok = Some (a, b)" and ne: "a \<noteq> []" "b \<noteq> []" by blast
  from xofy_match_SomeD [OF m] ne show "header_prefix tok"
    unfolding header_prefix_def by blast
qed

lemma header_grammar_iff:
  "header_grammar tok \<longleftrightarrow>
     (\<exists>a b. xofy_match tok = Some (a, b) \<and> a \<noteq> [] \<and> b \<noteq> [] \<and> tok = ''p'' @ a @ ''of'' @ b)"
proof
  assume "header_grammar tok"
  then obtain a b where ab: "a \<noteq> []" "b \<noteq> []" "list_all is_digit a" "list_all is_digit b"
    and tok: "tok = ''p'' @ a @ ''of'' @ b"
    unfolding header_grammar_def by blast
  have "xofy_match (''p'' @ a @ ''of'' @ b @ []) = Some (a, b @ takeWhile is_digit [])"
    using ab(3,4) by (rule xofy_match_header)
  then have "xofy_match tok = Some (a, b)" using tok by simp
  with ab tok show "\<exists>a b. xofy_match tok = Some (a, b) \<and> a \<noteq> [] \<and> b \<noteq> [] \<and> tok = ''p'' @ a @ ''of'' @ b"
    by blast
next
  assume "\<exists>a b. xofy_match tok = Some (a, b) \<and> a \<noteq> [] \<and> b \<noteq> [] \<and> tok = ''p'' @ a @ ''of'' @ b"
  then obtain a b where m: "xofy_match tok = Some (a, b)" and ne: "a \<noteq> []" "b \<noteq> []"
    and tok: "tok = ''p'' @ a @ ''of'' @ b" by blast
  from xofy_match_SomeD [OF m] ne tok show "header_grammar tok"
    unfolding header_grammar_def by blast
qed

lemma header_grammar_prefix: "header_grammar tok \<Longrightarrow> header_prefix tok"
  unfolding header_grammar_def header_prefix_def by (metis append_Nil2)

lemma xofy_match_exact:
  assumes "list_all is_digit a" and "list_all is_digit b"
  shows "xofy_match (''p'' @ a @ ''of'' @ b) = Some (a, b)"
proof -
  have "xofy_match (''p'' @ a @ ''of'' @ b @ []) = Some (a, b @ takeWhile is_digit [])"
    using assms by (rule xofy_match_header)
  then show ?thesis by simp
qed

lemma py_int_digits:
  "ds \<noteq> [] \<Longrightarrow> int (length ds) \<le> max_str_digits \<Longrightarrow> py_int ds = Inr (int_of_digits ds)"
  by (simp add: py_int_def)

lemma py_int_too_long: "max_str_digits < int (length ds) \<Longrightarrow> py_int ds = Inl ValueError"
  by (simp add: py_int_def)

lemma digits_no_space: "list_all is_digit ds \<Longrightarrow> CHR '' '' \<notin> set ds"
  by (auto simp: list_all_iff not_digit_space)

text \<open>What follows the first space of the input is what the account map parser joins again.\<close>

lemma rest_after_first_space:
  assumes "CHR '' '' \<notin> set h"
  shows "join_space (drop 1 (split_space (h @ CHR '' '' # rest))) = rest"
  by (simp add: split_space_at_space [OF assms] join_split_space)

subsection \<open>How a turn of the loop body can end\<close>

lemma absorb_Break:
  assumes "snd (absorb qrs d) = Break qrs'"
  shows "None \<notin> set qrs' \<and> qrs' \<noteq> [] \<and> (qrs \<noteq> [] \<longrightarrow> length qrs' = length qrs)"
  using assms
  by (auto simp: absorb_def return_payload_def end_of_body_def Let_def py_index_def
      split: option.splits if_splits)

text \<open>
  The array that goes into the next turn has an empty place: the loop never meets a full
  array at its head.
\<close>

lemma absorb_Continue:
  assumes "snd (absorb qrs d) = Continue qrs'"
  shows "None \<in> set qrs' \<and> (qrs \<noteq> [] \<longrightarrow> length qrs' = length qrs)"
  using assms
  by (auto simp: absorb_def return_payload_def end_of_body_def Let_def
      split: option.splits if_splits)

text \<open>A code of several whose place is empty: its text is written there.\<close>

lemma absorb_stores_text:
  assumes "qrs \<noteq> []" and "y \<noteq> 1"
    and "x_int d = Some x" and "py_index (length qrs) (x - 1) = Some i"
    and "qrs ! i = None" and "payload d = Some p"
  shows "absorb qrs (d\<lparr>y_int := Some y\<rparr>) =
           ([Scanned (length (filter (\<lambda>s. s \<noteq> None) qrs)) (length qrs), Adding_to_array],
            end_of_body (qrs[i := Some p]))"
  using assms by (simp add: absorb_def Let_def)



lemma three_orders:
  assumes "mset fs = mset [a, b, c]"
  shows "fs \<in> {[a, b, c], [a, c, b], [b, a, c], [b, c, a], [c, a, b], [c, b, a]}"
proof -
  from assms have "length fs = 3"
    by (metis length_Cons list.size(3) numeral_3_eq_3 size_mset)
  then obtain x y z where fs: "fs = [x, y, z]"
    by (auto simp: numeral_3_eq_3 length_Suc_conv)
  from assms show ?thesis unfolding fs
    by (auto simp: add_eq_conv_ex)
qed

section \<open>The claims\<close>

subsection \<open>C1: three parts in any order\<close>

text \<open>
  C1. The three codes \<^verbatim>\<open>p1of3 A\<close>, \<^verbatim>\<open>p2of3 B\<close> and \<^verbatim>\<open>p3of3 C\<close>, shown one per
  frame in any of their six orders, make \<^verbatim>\<open>read_qr_code\<close> return \<open>ABC\<close>, for both
  kinds of payload: the parts are joined in the order of their places, with nothing
  between them, whatever the order in which they arrive. (The camera is released once.)
\<close>

theorem three_parts_any_order:
  assumes "mset fs = mset [''p1of3 A'', ''p2of3 B'', ''p3of3 C'']"
    and "qrtype = ''psbt'' \<or> qrtype = ''accountmap''"
  shows "read_qr_code v qrtype (map frame fs) =
           Some \<lparr>outcome = Inr ''ABC'', camera_opened = 1, camera_released = 1\<rparr>"
proof -
  let ?r = "Some \<lparr>outcome = Inr ''ABC'', camera_opened = 1, camera_released = 1\<rparr>"
  have psbt:
    "read_qr_code v ''psbt'' (map frame [''p1of3 A'', ''p2of3 B'', ''p3of3 C'']) = ?r"
    "read_qr_code v ''psbt'' (map frame [''p1of3 A'', ''p3of3 C'', ''p2of3 B'']) = ?r"
    "read_qr_code v ''psbt'' (map frame [''p2of3 B'', ''p1of3 A'', ''p3of3 C'']) = ?r"
    "read_qr_code v ''psbt'' (map frame [''p2of3 B'', ''p3of3 C'', ''p1of3 A'']) = ?r"
    "read_qr_code v ''psbt'' (map frame [''p3of3 C'', ''p1of3 A'', ''p2of3 B'']) = ?r"
    "read_qr_code v ''psbt'' (map frame [''p3of3 C'', ''p2of3 B'', ''p1of3 A'']) = ?r"
    by code_simp+
  have accountmap:
    "read_qr_code v ''accountmap'' (map frame [''p1of3 A'', ''p2of3 B'', ''p3of3 C'']) = ?r"
    "read_qr_code v ''accountmap'' (map frame [''p1of3 A'', ''p3of3 C'', ''p2of3 B'']) = ?r"
    "read_qr_code v ''accountmap'' (map frame [''p2of3 B'', ''p1of3 A'', ''p3of3 C'']) = ?r"
    "read_qr_code v ''accountmap'' (map frame [''p2of3 B'', ''p3of3 C'', ''p1of3 A'']) = ?r"
    "read_qr_code v ''accountmap'' (map frame [''p3of3 C'', ''p1of3 A'', ''p2of3 B'']) = ?r"
    "read_qr_code v ''accountmap'' (map frame [''p3of3 C'', ''p2of3 B'', ''p1of3 A'']) = ?r"
    by code_simp+
  from three_orders [OF assms(1)] assms(2) psbt accountmap show ?thesis
    by (elim disjE insertE emptyE) (simp_all only:)
qed

theorem three_parts_any_order_witness:
  "mset [''p3of3 C'', ''p1of3 A'', ''p2of3 B''] = mset [''p1of3 A'', ''p2of3 B'', ''p3of3 C''] \<and>
   read_qr_code accepting ''psbt'' (map frame [''p3of3 C'', ''p1of3 A'', ''p2of3 B'']) =
     Some \<lparr>outcome = Inr ''ABC'', camera_opened = 1, camera_released = 1\<rparr>"
proof -
  have h: "mset [''p3of3 C'', ''p1of3 A'', ''p2of3 B''] =
           mset [''p1of3 A'', ''p2of3 B'', ''p3of3 C'']"
    by (simp add: add_mset_commute)
  have k: "''psbt'' = ''psbt'' \<or> ''psbt'' = ''accountmap''" by simp
  from three_parts_any_order [OF h k, of accepting] h show ?thesis by simp
qed

subsection \<open>C2: an input without a space\<close>

text \<open>
  C2, as the code has it. An input without a space is returned whole by the PSBT parser,
  as part 1 of 1. The account map parser looks for the header first, whatever the number
  of tokens: when the pattern finds no header at the start of the input, the input goes to
  the validator, and once the validator returns, the dictionary holds the input as its
  payload and nothing else (an exception of the validator is the parser's). In both cases
  the loop reads the part count as 1 and returns the payload unchanged.
\<close>

theorem single_token_parse:
  assumes "CHR '' '' \<notin> set s"
  shows "parse_specter_desktop_psbt s =
           Inr \<lparr>x_int = Some 1, y_int = Some 1, payload = Some s\<rparr> \<and>
         absorb qrs \<lparr>x_int = Some 1, y_int = Some 1, payload = Some s\<rparr> = ([], Return s) \<and>
         (xofy_match s = None \<longrightarrow>
            parse_specter_desktop_accountmap v s =
              (case v s of
                 Some e \<Rightarrow> Inl e
               | None \<Rightarrow> Inr \<lparr>x_int = None, y_int = None, payload = Some s\<rparr>) \<and>
            absorb qrs \<lparr>x_int = None, y_int = None, payload = Some s\<rparr> = ([], Return s))"
  using assms
  by (simp add: parse_specter_desktop_psbt_def parse_specter_desktop_accountmap_def
      split_space_no_space absorb_def return_payload_def)

theorem single_token_parse_witness:
  "CHR '' '' \<notin> set ''wsh(sortedmulti(1,A,B))'' \<and>
   parse_specter_desktop_psbt ''wsh(sortedmulti(1,A,B))'' =
     Inr \<lparr>x_int = Some 1, y_int = Some 1, payload = Some ''wsh(sortedmulti(1,A,B))''\<rparr> \<and>
   xofy_match ''wsh(sortedmulti(1,A,B))'' = None \<and>
   parse_specter_desktop_accountmap accepting ''wsh(sortedmulti(1,A,B))'' =
     Inr \<lparr>x_int = None, y_int = None, payload = Some ''wsh(sortedmulti(1,A,B))''\<rparr> \<and>
   parse_specter_desktop_accountmap rejecting ''wsh(sortedmulti(1,A,B))'' = Inl ValueError"
proof -
  have h: "CHR '' '' \<notin> set ''wsh(sortedmulti(1,A,B))''" by simp
  have m: "xofy_match ''wsh(sortedmulti(1,A,B))'' = None" by (simp add: xofy_match_def)
  show ?thesis
    using h m single_token_parse [OF h, of "[]" accepting]
      single_token_parse [OF h, of "[]" rejecting]
    by (simp add: accepting_def rejecting_def)
qed

text \<open>
  C2 as it was stated fails for the account map: the input \<^verbatim>\<open>p2of3\<close> has no space, and
  the parser reads it as part 2 of 3 with an empty text, without asking the validator.
\<close>

theorem accountmap_single_token_counterexample:
  "CHR '' '' \<notin> set ''p2of3'' \<and>
   parse_specter_desktop_accountmap accepting ''p2of3'' =
     Inr \<lparr>x_int = Some 2, y_int = Some 3, payload = Some []\<rparr> \<and>
   parse_specter_desktop_accountmap rejecting ''p2of3'' =
     Inr \<lparr>x_int = Some 2, y_int = Some 3, payload = Some []\<rparr>"
  by code_simp

subsection \<open>C3: two tokens, the first not a header\<close>

text \<open>
  C3, as the code has it. Take an input of two tokens whose first token does not begin with
  a header \<^verbatim>\<open>p<digits>of<digits>\<close> of at least one digit in each group. The PSBT parser
  raises \<^verbatim>\<open>ValueError\<close>. The account map parser raises \<^verbatim>\<open>ValueError\<close> when the
  pattern matches with an empty group (as in \<^verbatim>\<open>p2of\<close>); when the pattern does not match
  at all it hands the whole input to the validator, fails with the validator's exception,
  and returns the input as the payload when the validator returns.
\<close>

theorem two_tokens_without_header_prefix:
  assumes "length (split_space s) = 2" and "\<not> header_prefix (split_space s ! 0)"
  shows "parse_specter_desktop_psbt s = Inl ValueError \<and>
         parse_specter_desktop_accountmap v s =
           (if xofy_match (split_space s ! 0) = None
            then (case v s of
                    Some e \<Rightarrow> Inl e
                  | None \<Rightarrow> Inr \<lparr>x_int = None, y_int = None, payload = Some s\<rparr>)
            else Inl ValueError)"
proof (cases "xofy_match (split_space s ! 0)")
  case None
  with assms(1) show ?thesis
    by (simp add: parse_specter_desktop_psbt_def parse_specter_desktop_accountmap_def)
next
  case (Some ab)
  obtain a b where ab: "ab = (a, b)" by (cases ab)
  with Some assms(2) have "a = [] \<or> b = []"
    by (auto simp: header_prefix_iff)
  with Some ab assms(1) show ?thesis
    by (auto simp: parse_specter_desktop_psbt_def parse_specter_desktop_accountmap_def
        py_int_def)
qed

theorem two_tokens_without_header_prefix_witness:
  "length (split_space ''pXofY AAA'') = 2 \<and> \<not> header_prefix (split_space ''pXofY AAA'' ! 0) \<and>
   parse_specter_desktop_psbt ''pXofY AAA'' = Inl ValueError \<and>
   parse_specter_desktop_accountmap rejecting ''pXofY AAA'' = Inl ValueError \<and>
   parse_specter_desktop_accountmap accepting ''pXofY AAA'' =
     Inr \<lparr>x_int = None, y_int = None, payload = Some ''pXofY AAA''\<rparr>"
proof -
  have l: "length (split_space ''pXofY AAA'') = 2" by simp
  have t: "split_space ''pXofY AAA'' ! 0 = ''pXofY''" by simp
  have m: "xofy_match ''pXofY'' = None" by (simp add: xofy_match_def is_digit_def)
  have h: "\<not> header_prefix (split_space ''pXofY AAA'' ! 0)"
    unfolding t by (simp add: header_prefix_iff m)
  show ?thesis
    using l h two_tokens_without_header_prefix [OF l h, of rejecting]
      two_tokens_without_header_prefix [OF l h, of accepting]
    by (simp only: t m) (simp add: accepting_def rejecting_def)
qed

text \<open>The four headers that the specification names, each before a second token.\<close>

lemma named_malformed_headers_psbt:
  "parse_specter_desktop_psbt ''pXofY AAA'' = Inl ValueError"
  "parse_specter_desktop_psbt ''p2of AAA'' = Inl ValueError"
  "parse_specter_desktop_psbt ''2of3 AAA'' = Inl ValueError"
  "parse_specter_desktop_psbt '' AAA'' = Inl ValueError"
  by code_simp+

lemma named_malformed_headers_accountmap:
  "parse_specter_desktop_accountmap v ''pXofY AAA'' =
     (case v ''pXofY AAA'' of Some e \<Rightarrow> Inl e
      | None \<Rightarrow> Inr \<lparr>x_int = None, y_int = None, payload = Some ''pXofY AAA''\<rparr>)"
  "parse_specter_desktop_accountmap v ''p2of AAA'' = Inl ValueError"
  "parse_specter_desktop_accountmap v ''2of3 AAA'' =
     (case v ''2of3 AAA'' of Some e \<Rightarrow> Inl e
      | None \<Rightarrow> Inr \<lparr>x_int = None, y_int = None, payload = Some ''2of3 AAA''\<rparr>)"
  "parse_specter_desktop_accountmap v '' AAA'' =
     (case v '' AAA'' of Some e \<Rightarrow> Inl e
      | None \<Rightarrow> Inr \<lparr>x_int = None, y_int = None, payload = Some '' AAA''\<rparr>)"
  by (simp_all add: parse_specter_desktop_accountmap_def xofy_match_def is_digit_def py_int_def
      max_str_digits_def)

text \<open>
  C3 as it was stated fails. The token \<^verbatim>\<open>p1of2x\<close> is not a header of the grammar, and
  the PSBT parser accepts it, since the pattern is not anchored at its end. The token
  \<^verbatim>\<open>2of3\<close> is not one either, and the account map parser returns the whole input when
  the validator returns.
\<close>

theorem malformed_header_counterexample:
  "length (split_space ''p1of2x AAA'') = 2 \<and>
   \<not> header_grammar (split_space ''p1of2x AAA'' ! 0) \<and>
   parse_specter_desktop_psbt ''p1of2x AAA'' =
     Inr \<lparr>x_int = Some 1, y_int = Some 2, payload = Some ''AAA''\<rparr> \<and>
   length (split_space ''2of3 AAA'') = 2 \<and>
   \<not> header_grammar (split_space ''2of3 AAA'' ! 0) \<and>
   parse_specter_desktop_accountmap accepting ''2of3 AAA'' =
     Inr \<lparr>x_int = None, y_int = None, payload = Some ''2of3 AAA''\<rparr>"
proof -
  have "\<not> header_grammar ''p1of2x''" "\<not> header_grammar ''2of3''"
    by (simp_all add: header_grammar_iff xofy_match_def is_digit_def)
  moreover have "parse_specter_desktop_psbt ''p1of2x AAA'' =
     Inr \<lparr>x_int = Some 1, y_int = Some 2, payload = Some ''AAA''\<rparr>"
    by code_simp
  moreover have "parse_specter_desktop_accountmap accepting ''2of3 AAA'' =
     Inr \<lparr>x_int = None, y_int = None, payload = Some ''2of3 AAA''\<rparr>"
    by code_simp
  ultimately show ?thesis by simp
qed

subsection \<open>C4: a part scanned twice\<close>

text \<open>
  C4. When the place of the part is filled already and the array still has an empty place
  (as every array at the head of the loop has, see \<open>absorb_Continue\<close>), a further code of
  several with the same part index prints that the part was scanned already, leaves the
  array as it is and lets the loop go on: nothing is overwritten and the loop does not end.
\<close>

theorem duplicate_part_ignored:
  assumes "y_int d = Some y" and "y \<noteq> 1" and "x_int d = Some x"
    and "py_index (length qrs) (x - 1) = Some i" and "qrs ! i \<noteq> None"
    and "None \<in> set qrs"
  shows "absorb qrs d =
           ([Scanned (length (filter (\<lambda>s. s \<noteq> None) qrs)) (length qrs), Already_scanned x],
            Continue qrs)"
proof -
  from assms(6) have "qrs \<noteq> []" by auto
  with assms show ?thesis
    by (auto simp: absorb_def end_of_body_def Let_def)
qed

theorem duplicate_part_ignored_witness:
  "py_index (length [Some ''A'', None, None]) (1 - 1) = Some 0 \<and>
   [Some ''A'', None, None] ! 0 \<noteq> None \<and> None \<in> set [Some ''A'', None, None] \<and>
   absorb [Some ''A'', None, None] \<lparr>x_int = Some 1, y_int = Some 3, payload = Some ''Z''\<rparr> =
     ([Scanned 1 3, Already_scanned 1], Continue [Some ''A'', None, None])"
proof -
  have h: "y_int \<lparr>x_int = Some 1, y_int = Some 3, payload = Some ''Z''\<rparr> = Some 3"
    "(3::int) \<noteq> 1"
    "x_int \<lparr>x_int = Some 1, y_int = Some 3, payload = Some ''Z''\<rparr> = Some 1"
    "py_index (length [Some ''A'', None, None]) (1 - 1) = Some 0"
    "[Some ''A'', None, None] ! 0 \<noteq> None" "None \<in> set [Some ''A'', None, None]"
    by (simp_all add: py_index_def)
  from duplicate_part_ignored [OF h] h show ?thesis by simp
qed

subsection \<open>C5: a part count that differs from the first one\<close>

text \<open>
  C5, as the code has it. Once the array exists, the part count of a further code of
  several is not compared with anything: the code is taken in exactly as with any other
  part count different from 1, so in particular as with the count that sized the array.
  The array keeps its length. When the place of the part is empty, the text of the code
  is written there, whatever its part count says, and the loop goes on or ends as the
  array then stands.
\<close>

theorem part_count_not_compared:
  assumes "qrs \<noteq> []" and "y \<noteq> 1" and "y' \<noteq> 1"
  shows "absorb qrs (d\<lparr>y_int := Some y\<rparr>) = absorb qrs (d\<lparr>y_int := Some y'\<rparr>) \<and>
         (\<forall>qrs'. snd (absorb qrs (d\<lparr>y_int := Some y\<rparr>)) \<in> {Continue qrs', Break qrs'}
                 \<longrightarrow> length qrs' = length qrs) \<and>
         (\<forall>x i p. x_int d = Some x \<longrightarrow> py_index (length qrs) (x - 1) = Some i \<longrightarrow>
                  qrs ! i = None \<longrightarrow> payload d = Some p \<longrightarrow>
                  absorb qrs (d\<lparr>y_int := Some y\<rparr>) =
                    ([Scanned (length (filter (\<lambda>s. s \<noteq> None) qrs)) (length qrs),
                      Adding_to_array],
                     end_of_body (qrs[i := Some p])))"
proof (intro conjI allI impI)
  show "absorb qrs (d\<lparr>y_int := Some y\<rparr>) = absorb qrs (d\<lparr>y_int := Some y'\<rparr>)"
    using assms by (simp add: absorb_def Let_def split: option.splits)
next
  fix qrs'
  assume "snd (absorb qrs (d\<lparr>y_int := Some y\<rparr>)) \<in> {Continue qrs', Break qrs'}"
  then show "length qrs' = length qrs"
    using assms(1) absorb_Break [of qrs "d\<lparr>y_int := Some y\<rparr>" qrs']
      absorb_Continue [of qrs "d\<lparr>y_int := Some y\<rparr>" qrs']
    by auto
next
  fix x i p
  assume "x_int d = Some x" and "py_index (length qrs) (x - 1) = Some i"
    and "qrs ! i = None" and "payload d = Some p"
  with assms(1,2)
  show "absorb qrs (d\<lparr>y_int := Some y\<rparr>) =
          ([Scanned (length (filter (\<lambda>s. s \<noteq> None) qrs)) (length qrs), Adding_to_array],
           end_of_body (qrs[i := Some p]))"
    by (rule absorb_stores_text)
qed

theorem part_count_not_compared_witness:
  "[Some ''A'', None, None] \<noteq> [] \<and> (5::int) \<noteq> 1 \<and> (3::int) \<noteq> 1 \<and>
   py_index (length [Some ''A'', None, None]) (2 - 1) = Some 1 \<and>
   [Some ''A'', None, None] ! 1 = None \<and>
   absorb [Some ''A'', None, None] \<lparr>x_int = Some 2, y_int = Some 5, payload = Some ''Z''\<rparr> =
   absorb [Some ''A'', None, None] \<lparr>x_int = Some 2, y_int = Some 3, payload = Some ''Z''\<rparr> \<and>
   absorb [Some ''A'', None, None] \<lparr>x_int = Some 2, y_int = Some 5, payload = Some ''Z''\<rparr> =
     ([Scanned 1 3, Adding_to_array], end_of_body [Some ''A'', Some ''Z'', None]) \<and>
   end_of_body [Some ''A'', Some ''Z'', None] = Continue [Some ''A'', Some ''Z'', None] \<and>
   length [Some ''A'', Some ''Z'', None] = length [Some ''A'', None, None :: string option]"
proof -
  let ?d = "\<lparr>x_int = Some 2, y_int = Some 0, payload = Some ''Z''\<rparr>"
  let ?q = "[Some ''A'', None, None :: string option]"
  have h: "?q \<noteq> []" "(5::int) \<noteq> 1" "(3::int) \<noteq> 1" by simp_all
  have i: "py_index (length ?q) (2 - 1) = Some 1"
    by (simp add: py_index_def)
  have e: "?q ! 1 = None" by simp
  have u5: "?d\<lparr>y_int := Some 5\<rparr> = \<lparr>x_int = Some 2, y_int = Some 5, payload = Some ''Z''\<rparr>"
    and u3: "?d\<lparr>y_int := Some 3\<rparr> = \<lparr>x_int = Some 2, y_int = Some 3, payload = Some ''Z''\<rparr>"
    by simp_all
  have x: "x_int ?d = Some 2" and p: "payload ?d = Some ''Z''" by simp_all
  have f: "length (filter (\<lambda>s. s \<noteq> None) ?q) = 1" by simp
  have l: "length ?q = 3" by simp
  have w: "?q[1 := Some ''Z''] = [Some ''A'', Some ''Z'', None]" by simp
  note t = part_count_not_compared [OF h, of ?d]
  from t have same: "absorb ?q (?d\<lparr>y_int := Some 5\<rparr>) = absorb ?q (?d\<lparr>y_int := Some 3\<rparr>)"
    by (rule conjunct1)
  from t have "\<forall>x i p. x_int ?d = Some x \<longrightarrow>
      py_index (length ?q) (x - 1) = Some i \<longrightarrow> ?q ! i = None \<longrightarrow> payload ?d = Some p \<longrightarrow>
      absorb ?q (?d\<lparr>y_int := Some 5\<rparr>) =
        ([Scanned (length (filter (\<lambda>s. s \<noteq> None) ?q)) (length ?q), Adding_to_array],
         end_of_body (?q[i := Some p]))"
    by (rule conjunct2 [THEN conjunct2])
  from this [rule_format, OF x i e p]
  have stored: "absorb ?q (?d\<lparr>y_int := Some 5\<rparr>) =
     ([Scanned 1 3, Adding_to_array], end_of_body [Some ''A'', Some ''Z'', None])"
    by (simp only: f l w)
  have c: "end_of_body [Some ''A'', Some ''Z'', None] = Continue [Some ''A'', Some ''Z'', None]"
    by (simp add: end_of_body_def)
  have n: "length [Some ''A'', Some ''Z'', None] = length ?q" by simp
  from h i e same [unfolded u5 u3] stored [unfolded u5] c n show ?thesis
    by (intro conjI)
qed

text \<open>
  C5 as it was stated fails: after \<^verbatim>\<open>p1of3 A\<close> has sized the array, the code
  \<^verbatim>\<open>p2of5 Z\<close> fills the second place, and with \<^verbatim>\<open>p3of3 C\<close> the call returns
  \<open>AZC\<close>.
\<close>

theorem part_count_mismatch_counterexample:
  "absorb [] \<lparr>x_int = Some 1, y_int = Some 3, payload = Some ''A''\<rparr> =
     ([Scanned 0 3, Adding_to_array], Continue [Some ''A'', None, None]) \<and>
   absorb [Some ''A'', None, None] \<lparr>x_int = Some 2, y_int = Some 5, payload = Some ''Z''\<rparr> =
     ([Scanned 1 3, Adding_to_array], Continue [Some ''A'', Some ''Z'', None]) \<and>
   read_qr_code accepting ''psbt'' [frame ''p1of3 A'', frame ''p2of5 Z'', frame ''p3of3 C''] =
     Some \<lparr>outcome = Inr ''AZC'', camera_opened = 1, camera_released = 1\<rparr>"
  by code_simp

subsection \<open>C6: what the loop returns\<close>





subsection \<open>C7: the escape key\<close>

text \<open>
  C7 does not hold of the code. With the escape key the loop is left and the camera is
  released, but the join after the loop raises \<^verbatim>\<open>TypeError\<close> when the array has an empty
  place: after \<^verbatim>\<open>p1of2 AAA\<close> and the escape key the call ends in that exception, for
  both kinds. Only when no array exists yet does the call return the empty string.
\<close>

theorem cancel_with_partial_array_raises:
  "read_qr_code v ''psbt'' [frame ''p1of2 AAA'', escape] =
     Some \<lparr>outcome = Inl TypeError, camera_opened = 1, camera_released = 1\<rparr> \<and>
   read_qr_code v ''accountmap'' [frame ''p1of2 AAA'', escape] =
     Some \<lparr>outcome = Inl TypeError, camera_opened = 1, camera_released = 1\<rparr> \<and>
   read_qr_code v ''psbt'' [escape] =
     Some \<lparr>outcome = Inr [], camera_opened = 1, camera_released = 1\<rparr>"
  by code_simp

subsection \<open>C8: the release of the camera\<close>

text \<open>
  C8 does not hold of the code. The camera is released after the loop only. A code that is
  not one of several makes the call return from inside the loop, and an exception other
  than \<^verbatim>\<open>ValueError\<close> leaves the call from inside the loop as well: in both cases
  \<^verbatim>\<open>camera.release()\<close> is not reached. A payload assembled from several codes is
  returned after one release.
\<close>

theorem camera_not_released_on_return:
  "read_qr_code v ''psbt'' [frame ''AAA''] =
     Some \<lparr>outcome = Inr ''AAA'', camera_opened = 1, camera_released = 0\<rparr> \<and>
   read_qr_code v ''psbt'' [frame ''p5of3 AAA''] =
     Some \<lparr>outcome = Inl IndexError, camera_opened = 1, camera_released = 0\<rparr> \<and>
   read_qr_code v ''psbt'' [frame ''p1of2 AAA'', frame ''p2of2 BBB''] =
     Some \<lparr>outcome = Inr ''AAABBB'', camera_opened = 1, camera_released = 1\<rparr>"
  by code_simp

subsection \<open>C9: tokens after the header\<close>

text \<open>
  C9, as the code has it. Let the first token of the input be a header
  \<^verbatim>\<open>p<digits>of<digits>\<close> with at least one digit in each group, and no more digits in
  a group than \<^verbatim>\<open>int()\<close> converts (4300). With three tokens or more the PSBT parser
  raises \<^verbatim>\<open>ValueError\<close>. The account map parser accepts any number of tokens: it
  returns the two numbers of the header and, as the payload, the tokens after the header
  joined with single spaces (which is the input after its first space, see
  \<open>rest_after_first_space\<close>).
\<close>

theorem tokens_after_header:
  assumes "a \<noteq> []" and "b \<noteq> []" and "list_all is_digit a" and "list_all is_digit b"
    and "int (length a) \<le> max_str_digits" and "int (length b) \<le> max_str_digits"
    and "split_space s ! 0 = ''p'' @ a @ ''of'' @ b"
  shows "(3 \<le> length (split_space s) \<longrightarrow> parse_specter_desktop_psbt s = Inl ValueError) \<and>
         parse_specter_desktop_accountmap v s =
           Inr \<lparr>x_int = Some (int_of_digits a), y_int = Some (int_of_digits b),
                payload = Some (join_space (drop 1 (split_space s)))\<rparr>"
proof -
  have m: "xofy_match (split_space s ! 0) = Some (a, b)"
    unfolding assms(7) using assms(3,4) by (rule xofy_match_exact)
  have "3 \<le> length (split_space s) \<longrightarrow> parse_specter_desktop_psbt s = Inl ValueError"
    by (simp add: parse_specter_desktop_psbt_def)
  moreover have "parse_specter_desktop_accountmap v s =
           Inr \<lparr>x_int = Some (int_of_digits a), y_int = Some (int_of_digits b),
                payload = Some (join_space (drop 1 (split_space s)))\<rparr>"
    using m py_int_digits [OF assms(1,5)] py_int_digits [OF assms(2,6)]
    by (simp add: parse_specter_desktop_accountmap_def)
  ultimately show ?thesis by simp
qed

theorem tokens_after_header_witness:
  "split_space ''p2of10 wsh(a, b)'' ! 0 = ''p'' @ ''2'' @ ''of'' @ ''10'' \<and>
   int (length ''2'') \<le> max_str_digits \<and> int (length ''10'') \<le> max_str_digits \<and>
   3 \<le> length (split_space ''p2of10 wsh(a, b)'') \<and>
   parse_specter_desktop_psbt ''p2of10 wsh(a, b)'' = Inl ValueError \<and>
   parse_specter_desktop_accountmap accepting ''p2of10 wsh(a, b)'' =
     Inr \<lparr>x_int = Some 2, y_int = Some 10, payload = Some ''wsh(a, b)''\<rparr>"
proof -
  have d: "''2'' \<noteq> []" "''10'' \<noteq> []" "list_all is_digit ''2''" "list_all is_digit ''10''"
    "int (length ''2'') \<le> max_str_digits" "int (length ''10'') \<le> max_str_digits"
    "split_space ''p2of10 wsh(a, b)'' ! 0 = ''p'' @ ''2'' @ ''of'' @ ''10''"
    by (simp_all add: is_digit_def max_str_digits_def)
  have l: "3 \<le> length (split_space ''p2of10 wsh(a, b)'')"
    by simp
  have i: "int_of_digits ''2'' = 2" "int_of_digits ''10'' = 10"
    by (simp_all add: int_of_digits_def)
  have j: "join_space (drop 1 (split_space ''p2of10 wsh(a, b)'')) = ''wsh(a, b)''"
    by simp
  from tokens_after_header [OF d, of accepting] d(5,6,7) l i j
  show ?thesis by simp
qed

text \<open>
  C9 as it was stated fails for a header that is in the grammar and has a group of 4301
  digits: \<^verbatim>\<open>int()\<close> raises \<^verbatim>\<open>ValueError\<close>, and the account map parser with it,
  instead of returning the tokens after the header.
\<close>

theorem long_header_counterexample:
  "header_grammar (''p'' @ replicate 4301 CHR ''1'' @ ''of3'') \<and>
   split_space (''p'' @ replicate 4301 CHR ''1'' @ ''of3 a b'') ! 0 =
     ''p'' @ replicate 4301 CHR ''1'' @ ''of3'' \<and>
   parse_specter_desktop_accountmap accepting (''p'' @ replicate 4301 CHR ''1'' @ ''of3 a b'') =
     Inl ValueError"
proof -
  let ?a = "replicate 4301 CHR ''1''"
  let ?h = "''p'' @ ?a @ ''of'' @ ''3''"
  have da: "list_all is_digit ?a" and d3: "list_all is_digit ''3''"
    by (simp_all add: list_all_iff is_digit_def)
  have ne: "?a \<noteq> []" by (simp add: replicate_empty)
  have g: "header_grammar ?h"
    unfolding header_grammar_def using da d3 ne by blast
  have ns: "CHR '' '' \<notin> set ?h"
    using digits_no_space [OF da] by simp
  have s: "''p'' @ ?a @ ''of3 a b'' = ?h @ CHR '' '' # ''a b''" by simp
  have sp: "split_space (''p'' @ ?a @ ''of3 a b'') = ?h # split_space ''a b''"
    unfolding s using ns by (rule split_space_at_space)
  have m: "xofy_match ?h = Some (?a, ''3'')"
    using da d3 by (rule xofy_match_exact)
  have "max_str_digits < int (length ?a)" by (simp add: max_str_digits_def)
  then have i: "py_int ?a = Inl ValueError" by (rule py_int_too_long)
  have p: "parse_specter_desktop_accountmap accepting (''p'' @ ?a @ ''of3 a b'') = Inl ValueError"
    unfolding parse_specter_desktop_accountmap_def Let_def sp nth_Cons_0 m
    by (simp only: option.case prod.case i sum.case)
  have h3: "?h = ''p'' @ ?a @ ''of3''" by simp
  from g sp p show ?thesis unfolding h3 [symmetric] by (simp only: nth_Cons_0 simp_thms)
qed

subsection \<open>C10: the part index zero\<close>

text \<open>
  C10. The input \<^verbatim>\<open>p0of3 X\<close> is parsed, by both parsers, into part 0 of 3, and the
  loop body writes its text into the last of the three places (the index \<open>-1\<close> counts from
  the end), whether the array exists already or is created by this very code: a part
  index below 1 is refused neither by the parsers nor by the loop.
\<close>

theorem part_index_zero_accepted:
  "parse_specter_desktop_psbt ''p0of3 X'' =
     Inr \<lparr>x_int = Some 0, y_int = Some 3, payload = Some ''X''\<rparr> \<and>
   parse_specter_desktop_accountmap v ''p0of3 X'' =
     Inr \<lparr>x_int = Some 0, y_int = Some 3, payload = Some ''X''\<rparr> \<and>
   py_index 3 (0 - 1) = Some 2 \<and>
   absorb [None, None, None] \<lparr>x_int = Some 0, y_int = Some 3, payload = Some ''X''\<rparr> =
     ([Scanned 0 3, Adding_to_array], Continue [None, None, Some ''X'']) \<and>
   absorb [] \<lparr>x_int = Some 0, y_int = Some 3, payload = Some ''X''\<rparr> =
     ([Scanned 0 3, Adding_to_array], Continue [None, None, Some ''X''])"
  by code_simp

end
